theory Spec2Isabelle
  imports Main "HOL-Library.AList"
begin

section \<open>Bytes, runes and UTF-8\<close>

text \<open>
  A Go \<^verbatim>\<open>string\<close> is a sequence of bytes, not necessarily well-formed UTF-8; it is
  modelled as a \<^typ>\<open>string\<close>, whose characters are 8-bit. A rune is a natural number.
  \<^verbatim>\<open>DecodeRune\<close> and \<^verbatim>\<open>EncodeRune\<close> follow Go's \<^verbatim>\<open>unicode/utf8\<close>: masks are written as
  \<open>mod\<close>, shifts as multiplication and division by powers of two, and the bitwise
  \<^verbatim>\<open>|\<close> of disjoint bit fields as \<open>+\<close>.
\<close>

abbreviation DQ :: char where "DQ \<equiv> CHR 0x22"
abbreviation BS :: char where "BS \<equiv> CHR 0x5C"

definition byte :: "char \<Rightarrow> nat" where
  "byte c = of_char c"

definition chr :: "nat \<Rightarrow> char" where
  "chr n = char_of n"

abbreviation RuneError :: nat where "RuneError \<equiv> 0xFFFD"

definition first_size :: "nat \<Rightarrow> nat" where
  \<comment> \<open>the length that the table \<^verbatim>\<open>first\<close> gives to a leading byte in C2..F4\<close>
  "first_size b0 = (if b0 < 0xE0 then 2 else if b0 < 0xF0 then 3 else 4)"

definition accept_lo :: "nat \<Rightarrow> nat" where
  "accept_lo b0 = (if b0 = 0xE0 then 0xA0 else if b0 = 0xF0 then 0x90 else 0x80)"

definition accept_hi :: "nat \<Rightarrow> nat" where
  "accept_hi b0 = (if b0 = 0xED then 0x9F else if b0 = 0xF4 then 0x8F else 0xBF)"

definition DecodeRune :: "string \<Rightarrow> nat \<times> nat" where
  "DecodeRune p =
     (case p of
        [] \<Rightarrow> (RuneError, 0)
      | p0 # _ \<Rightarrow>
          if byte p0 < 0x80 then (byte p0, 1)
          else if byte p0 < 0xC2 \<or> 0xF4 < byte p0 then (RuneError, 1)
          else if length p < first_size (byte p0) then (RuneError, 1)
          else if byte (p ! 1) < accept_lo (byte p0) \<or> accept_hi (byte p0) < byte (p ! 1)
            then (RuneError, 1)
          else if first_size (byte p0) \<le> 2
            then (byte p0 mod 32 * 64 + byte (p ! 1) mod 64, 2)
          else if byte (p ! 2) < 0x80 \<or> 0xBF < byte (p ! 2) then (RuneError, 1)
          else if first_size (byte p0) \<le> 3
            then (byte p0 mod 16 * 4096 + byte (p ! 1) mod 64 * 64 + byte (p ! 2) mod 64, 3)
          else if byte (p ! 3) < 0x80 \<or> 0xBF < byte (p ! 3) then (RuneError, 1)
          else (byte p0 mod 8 * 262144 + byte (p ! 1) mod 64 * 4096
                  + byte (p ! 2) mod 64 * 64 + byte (p ! 3) mod 64, 4))"

definition EncodeRune :: "nat \<Rightarrow> string" where
  "EncodeRune r =
     (if r \<le> 0x7F then [chr r]
      else if r \<le> 0x7FF then [chr (0xC0 + r div 64), chr (0x80 + r mod 64)]
      else if 0x10FFFF < r \<or> (0xD800 \<le> r \<and> r \<le> 0xDFFF)
        then [chr 0xEF, chr 0xBF, chr 0xBD]
      else if r \<le> 0xFFFF
        then [chr (0xE0 + r div 4096), chr (0x80 + r div 64 mod 64), chr (0x80 + r mod 64)]
      else [chr (0xF0 + r div 262144), chr (0x80 + r div 4096 mod 64),
            chr (0x80 + r div 64 mod 64), chr (0x80 + r mod 64)])"

lemma DecodeRune_size_pos: "0 < snd (DecodeRune (c # cs))"
  by (simp add: DecodeRune_def)

lemma DecodeRune_drop_less:
  assumes "(r, n) = DecodeRune (c # cs)"
  shows "Suc (length cs) - n < Suc (length cs)"
proof -
  have "n = snd (DecodeRune (c # cs))"
    using assms by (metis snd_conv)
  then have "0 < n"
    by (simp add: DecodeRune_size_pos)
  then show ?thesis by arith
qed

function ValidString :: "string \<Rightarrow> bool" where
  "ValidString [] = True"
| "ValidString (c # cs) =
     (if byte c < 0x80 then ValidString cs
      else (case DecodeRune (c # cs) of (r, n) \<Rightarrow>
              if n = 1 then False else ValidString (drop n (c # cs))))"
  by pat_completeness auto
termination
  by (relation "measure length") (auto intro: DecodeRune_drop_less)

section \<open>The JSON encoding of a Person\<close>

text \<open>
  \<^verbatim>\<open>json.Marshal\<close> writes the exported fields of a struct in declaration order, each
  under the name of its \<^verbatim>\<open>json\<close> tag. A string is written between double quotes; the
  bytes \<^verbatim>\<open>"\<close> and \<^verbatim>\<open>\\<close>, the control characters and (HTML escaping is on) \<^verbatim>\<open><\<close>,
  \<^verbatim>\<open>>\<close> and \<^verbatim>\<open>&\<close> are escaped, a byte that does not start a well-formed UTF-8
  sequence is replaced by the escape of U+FFFD, and U+2028 and U+2029 are escaped.
\<close>

record Person =
  ID :: string
  Serial :: string
  Name :: string
  Surname :: string
  City :: string
  Address :: string
  Phone :: string
  Married :: bool

datatype field_value = StringValue string | BoolValue bool

definition hex :: "nat \<Rightarrow> char" where
  \<comment> \<open>the digit of \<^verbatim>\<open>"0123456789abcdef"\<close> at index \<open>n\<close>\<close>
  "hex n = (if n < 10 then chr (48 + n) else chr (87 + n))"

definition htmlSafeSet :: "nat \<Rightarrow> bool" where
  "htmlSafeSet b \<longleftrightarrow>
     0x20 \<le> b \<and> b < 0x80 \<and> b \<noteq> 0x22 \<and> b \<noteq> 0x5C \<and> b \<noteq> 0x3C \<and> b \<noteq> 0x3E \<and> b \<noteq> 0x26"

definition escape_byte :: "char \<Rightarrow> string" where
  "escape_byte c =
     (if c = BS \<or> c = DQ then [BS, c]
      else if c = CHR 0x0A then [BS, CHR ''n'']
      else if c = CHR 0x0D then [BS, CHR ''r'']
      else if c = CHR 0x09 then [BS, CHR ''t'']
      else [BS, CHR ''u'', CHR ''0'', CHR ''0'', hex (byte c div 16), hex (byte c mod 16)])"

function encode_string_body :: "string \<Rightarrow> string" where
  "encode_string_body [] = []"
| "encode_string_body (c # cs) =
     (if byte c < 0x80
      then (if htmlSafeSet (byte c) then [c] else escape_byte c) @ encode_string_body cs
      else (case DecodeRune (c # cs) of (r, n) \<Rightarrow>
              if r = RuneError \<and> n = 1
                then [BS, CHR ''u'', CHR ''f'', CHR ''f'', CHR ''f'', CHR ''d'']
                       @ encode_string_body (drop n (c # cs))
              else if r = 0x2028 \<or> r = 0x2029
                then [BS, CHR ''u'', CHR ''2'', CHR ''0'', CHR ''2'', hex (r mod 16)]
                       @ encode_string_body (drop n (c # cs))
              else take n (c # cs) @ encode_string_body (drop n (c # cs))))"
  by pat_completeness auto
termination
  by (relation "measure length") (auto intro: DecodeRune_drop_less)

definition encode_string :: "string \<Rightarrow> string" where
  "encode_string s = DQ # encode_string_body s @ [DQ]"

fun encode_value :: "field_value \<Rightarrow> string" where
  "encode_value (StringValue s) = encode_string s"
| "encode_value (BoolValue b) = (if b then ''true'' else ''false'')"

fun encode_fields :: "char \<Rightarrow> (string \<times> field_value) list \<Rightarrow> string" where
  "encode_fields next [] = (if next = CHR ''{'' then ''{}'' else ''}'')"
| "encode_fields next ((name, v) # fs) =
     next # (DQ # name @ [DQ, CHR '':'']) @ encode_value v @ encode_fields (CHR '','') fs"

definition Person_fields :: "Person \<Rightarrow> (string \<times> field_value) list" where
  \<comment> \<open>the fields of the struct in declaration order, under their tags\<close>
  "Person_fields p =
     [(''id'', StringValue (ID p)),
      (''passport'', StringValue (Serial p)),
      (''name'', StringValue (Name p)),
      (''surname'', StringValue (Surname p)),
      (''city'', StringValue (City p)),
      (''address'', StringValue (Address p)),
      (''phone'', StringValue (Phone p)),
      (''married'', BoolValue (Married p))]"

datatype error =
    AlreadyExists string    \<comment> \<open>\<^verbatim>\<open>the person %s already exists\<close>\<close>
  | DoesNotExist string     \<comment> \<open>\<^verbatim>\<open>the person %s does not exist\<close>\<close>
  | ReadFailed error        \<comment> \<open>\<^verbatim>\<open>failed to read from world state: %v\<close>\<close>
  | PutFailed error         \<comment> \<open>\<^verbatim>\<open>failed to put to world state. %v\<close>\<close>
  | StubError               \<comment> \<open>an error of the ledger platform\<close>
  | JsonError               \<comment> \<open>a syntax or type error of \<^verbatim>\<open>json.Unmarshal\<close>\<close>
  | TimestampError          \<comment> \<open>an invalid protobuf timestamp\<close>

definition Marshal :: "Person \<Rightarrow> error + string" where
  \<comment> \<open>\<^verbatim>\<open>json.Marshal(person)\<close>; it has no error for this struct\<close>
  "Marshal p = Inr (encode_fields (CHR ''{'') (Person_fields p))"

section \<open>The JSON decoding of a Person\<close>

text \<open>
  \<^verbatim>\<open>json.Unmarshal(data, &person)\<close> on a zero \<^verbatim>\<open>Person\<close>. The model covers objects whose
  member values are strings, \<^verbatim>\<open>true\<close>, \<^verbatim>\<open>false\<close> or \<^verbatim>\<open>null\<close>, with white space between
  the tokens, members in any order, unknown keys ignored, keys matched without regard
  to ASCII case, and \<^verbatim>\<open>null\<close> leaving a field as it is. Values of the other JSON kinds
  (numbers, arrays, nested objects), which the contract never writes, are rejected.
  Every failure of the decoder is the one error \<^const>\<open>JsonError\<close>; the empty input is
  such a failure (\<^verbatim>\<open>unexpected end of JSON input\<close>).
\<close>

definition hexval :: "char \<Rightarrow> nat option" where
  "hexval c =
     (if 48 \<le> byte c \<and> byte c \<le> 57 then Some (byte c - 48)
      else if 97 \<le> byte c \<and> byte c \<le> 102 then Some (byte c - 87)
      else if 65 \<le> byte c \<and> byte c \<le> 70 then Some (byte c - 55)
      else None)"

fun getu4 :: "string \<Rightarrow> nat option" where
  "getu4 (a # b # h1 # h2 # h3 # h4 # _) =
     (if a = BS \<and> b = CHR ''u'' then
        (case (hexval h1, hexval h2, hexval h3, hexval h4) of
           (Some d1, Some d2, Some d3, Some d4) \<Rightarrow> Some (d1 * 4096 + d2 * 256 + d3 * 16 + d4)
         | _ \<Rightarrow> None)
      else None)"
| "getu4 _ = None"

definition prepend :: "string \<Rightarrow> (string \<times> string) option \<Rightarrow> (string \<times> string) option" where
  "prepend xs r = (case r of None \<Rightarrow> None | Some (s, rest) \<Rightarrow> Some (xs @ s, rest))"

definition utf16_DecodeRune :: "nat \<Rightarrow> nat option \<Rightarrow> nat" where
  "utf16_DecodeRune r1 r2 =
     (case r2 of
        None \<Rightarrow> RuneError
      | Some r2' \<Rightarrow>
          if 0xD800 \<le> r1 \<and> r1 < 0xDC00 \<and> 0xDC00 \<le> r2' \<and> r2' < 0xE000
          then (r1 - 0xD800) * 1024 + (r2' - 0xDC00) + 0x10000
          else RuneError)"

text \<open>
  \<open>unquote_body\<close> reads a string literal from just after its opening quote and returns
  the decoded bytes and the input after the closing quote.
\<close>

definition simple_escape :: "char \<Rightarrow> char option" where
  "simple_escape e =
     (if e = DQ \<or> e = BS \<or> e = CHR ''/'' then Some e
      else if e = CHR ''b'' then Some (CHR 0x08)
      else if e = CHR ''f'' then Some (CHR 0x0C)
      else if e = CHR ''n'' then Some (CHR 0x0A)
      else if e = CHR ''r'' then Some (CHR 0x0D)
      else if e = CHR ''t'' then Some (CHR 0x09)
      else None)"

definition unicode_escape :: "nat \<Rightarrow> string \<Rightarrow> nat \<times> nat" where
  \<comment> \<open>the rune that the escape \<open>rr\<close> stands for, and how many bytes of a second escape
      (a low surrogate) it consumes from the input that follows\<close>
  "unicode_escape rr rest =
     (if 0xD800 \<le> rr \<and> rr < 0xE000 then
        (if utf16_DecodeRune rr (getu4 rest) \<noteq> RuneError
         then (utf16_DecodeRune rr (getu4 rest), 6)
         else (RuneError, 0))
      else (rr, 0))"

function unquote_body :: "string \<Rightarrow> (string \<times> string) option" where
  "unquote_body [] = None"
| "unquote_body (c # cs) =
     (if c = DQ then Some ([], cs)
      else if c = BS then
        (case cs of
           [] \<Rightarrow> None
         | e # es \<Rightarrow>
             if e = CHR ''u'' then
               (case getu4 (c # cs) of
                  None \<Rightarrow> None
                | Some rr \<Rightarrow>
                    (case unicode_escape rr (drop 4 es) of (r, k) \<Rightarrow>
                       prepend (EncodeRune r) (unquote_body (drop (4 + k) es))))
             else
               (case simple_escape e of
                  None \<Rightarrow> None
                | Some x \<Rightarrow> prepend [x] (unquote_body es)))
      else if byte c < 0x20 then None
      else if byte c < 0x80 then prepend [c] (unquote_body cs)
      else (case DecodeRune (c # cs) of (rr, n) \<Rightarrow>
              prepend (EncodeRune rr) (unquote_body (drop n (c # cs)))))"
  by pat_completeness auto
termination
  by (relation "measure length") (auto intro: DecodeRune_drop_less)

datatype json_value = JString string | JBool bool | JNull

definition is_space :: "char \<Rightarrow> bool" where
  "is_space c \<longleftrightarrow> c = CHR '' '' \<or> c = CHR 0x09 \<or> c = CHR 0x0D \<or> c = CHR 0x0A"

definition skip_ws :: "string \<Rightarrow> string" where
  "skip_ws s = dropWhile is_space s"

definition read_value :: "string \<Rightarrow> (json_value \<times> string) option" where
  "read_value s =
     (case s of
        [] \<Rightarrow> None
      | c # cs \<Rightarrow>
          if c = DQ then
            (case unquote_body cs of None \<Rightarrow> None | Some (v, rest) \<Rightarrow> Some (JString v, rest))
          else if take 4 s = ''true'' then Some (JBool True, drop 4 s)
          else if take 5 s = ''false'' then Some (JBool False, drop 5 s)
          else if take 4 s = ''null'' then Some (JNull, drop 4 s)
          else None)"

definition to_lower :: "char \<Rightarrow> char" where
  "to_lower c = (if 65 \<le> byte c \<and> byte c \<le> 90 then chr (byte c + 32) else c)"

definition set_string ::
  "json_value \<Rightarrow> (string \<Rightarrow> Person) \<Rightarrow> Person \<Rightarrow> error + Person" where
  "set_string v upd p =
     (case v of JString s \<Rightarrow> Inr (upd s) | JNull \<Rightarrow> Inr p | JBool _ \<Rightarrow> Inl JsonError)"

definition set_field :: "string \<Rightarrow> json_value \<Rightarrow> Person \<Rightarrow> error + Person" where
  "set_field key v p =
     (let k = map to_lower key in
      if k = ''id'' then set_string v (\<lambda>s. p\<lparr>ID := s\<rparr>) p
      else if k = ''passport'' then set_string v (\<lambda>s. p\<lparr>Serial := s\<rparr>) p
      else if k = ''name'' then set_string v (\<lambda>s. p\<lparr>Name := s\<rparr>) p
      else if k = ''surname'' then set_string v (\<lambda>s. p\<lparr>Surname := s\<rparr>) p
      else if k = ''city'' then set_string v (\<lambda>s. p\<lparr>City := s\<rparr>) p
      else if k = ''address'' then set_string v (\<lambda>s. p\<lparr>Address := s\<rparr>) p
      else if k = ''phone'' then set_string v (\<lambda>s. p\<lparr>Phone := s\<rparr>) p
      else if k = ''married'' then
        (case v of JBool b \<Rightarrow> Inr (p\<lparr>Married := b\<rparr>) | JNull \<Rightarrow> Inr p
         | JString _ \<Rightarrow> Inl JsonError)
      else Inr p)"

text \<open>A string literal is never empty, so reading one consumes input: the member loop terminates.\<close>

lemma prepend_Some:
  "prepend xs r = Some (s, rest) \<Longrightarrow> \<exists>s'. r = Some (s', rest)"
  by (auto simp: prepend_def split: option.splits)

lemma DecodeRune_pos: "DecodeRune (c # cs) = (rr, n) \<Longrightarrow> 0 < n"
  using DecodeRune_size_pos [of c cs] by simp

lemma unquote_body_step:
  assumes "unquote_body (c # cs) = Some (v, rest)"
  shows "rest = cs \<or> (\<exists>t k v'. prepend k (unquote_body t) = Some (v', rest) \<and> length t \<le> length cs)"
proof (cases "c = DQ")
  case True
  with assms show ?thesis by simp
next
  case notq: False
  show ?thesis
  proof (cases "c = BS")
    case True
    with assms notq obtain e es where cs: "cs = e # es"
      by (cases cs) auto
    show ?thesis
    proof (cases "e = CHR ''u''")
      case True
      with assms notq \<open>c = BS\<close> cs
      obtain r k where "prepend (EncodeRune r) (unquote_body (drop (4 + k) es)) = Some (v, rest)"
        by (auto split: option.splits prod.splits)
      moreover have "length (drop (4 + k) es) \<le> length cs"
        using cs by simp
      ultimately show ?thesis by blast
    next
      case False
      with assms notq \<open>c = BS\<close> cs
      obtain x where "prepend [x] (unquote_body es) = Some (v, rest)"
        by (auto split: option.splits)
      moreover have "length es \<le> length cs"
        using cs by simp
      ultimately show ?thesis by blast
    qed
  next
    case nobs: False
    show ?thesis
    proof (cases "byte c < 0x80")
      case True
      with assms notq nobs have "prepend [c] (unquote_body cs) = Some (v, rest)"
        by (auto split: if_splits)
      then show ?thesis by blast
    next
      case False
      obtain rr n where d: "DecodeRune (c # cs) = (rr, n)"
        by (cases "DecodeRune (c # cs)")
      with assms notq nobs False
      have "prepend (EncodeRune rr) (unquote_body (drop n (c # cs))) = Some (v, rest)"
        by simp
      moreover have "length (drop n (c # cs)) \<le> length cs"
        using DecodeRune_pos [OF d] by simp
      ultimately show ?thesis by blast
    qed
  qed
qed

lemma unquote_body_length:
  "unquote_body s = Some (v, rest) \<Longrightarrow> length rest < length s"
proof (induction "length s" arbitrary: s v rest rule: less_induct)
  case less
  show ?case
  proof (cases s)
    case Nil
    with less.prems show ?thesis by simp
  next
    case (Cons c cs)
    with less.prems have "unquote_body (c # cs) = Some (v, rest)" by simp
    from unquote_body_step [OF this] show ?thesis
    proof
      assume "rest = cs"
      with Cons show ?thesis by simp
    next
      assume "\<exists>t k v'. prepend k (unquote_body t) = Some (v', rest) \<and> length t \<le> length cs"
      then obtain t k v' where p: "prepend k (unquote_body t) = Some (v', rest)"
        and t: "length t \<le> length cs" by blast
      from p obtain s' where "unquote_body t = Some (s', rest)"
        by (auto dest: prepend_Some)
      moreover have "length t < length s" using t Cons by simp
      ultimately have "length rest < length t" by (rule less.hyps [rotated])
      with t Cons show ?thesis by simp
    qed
  qed
qed

lemma skip_ws_length: "length (skip_ws s) \<le> length s"
  by (simp add: skip_ws_def length_dropWhile_le)

lemma skip_ws_Cons_length: "skip_ws s = c # r \<Longrightarrow> length r < length s"
  using skip_ws_length [of s] by simp

lemma read_value_length: "read_value s = Some (v, rest) \<Longrightarrow> length rest \<le> length s"
  by (cases s) (auto simp: read_value_def split: if_splits option.splits
                     dest!: unquote_body_length)

abbreviation zero_Person :: Person where
  "zero_Person \<equiv> \<lparr>ID = [], Serial = [], Name = [], Surname = [], City = [], Address = [],
     Phone = [], Married = False\<rparr>"

function object_members :: "Person \<Rightarrow> string \<Rightarrow> error + Person \<times> string" where
  "object_members p s =
     (case s of
        [] \<Rightarrow> Inl JsonError
      | c # cs \<Rightarrow>
          if c \<noteq> DQ then Inl JsonError
          else
            (case unquote_body cs of
               None \<Rightarrow> Inl JsonError
             | Some (key, r1) \<Rightarrow>
                 (case skip_ws r1 of
                    [] \<Rightarrow> Inl JsonError
                  | c1 # r2 \<Rightarrow>
                      if c1 \<noteq> CHR '':'' then Inl JsonError
                      else
                        (case read_value (skip_ws r2) of
                           None \<Rightarrow> Inl JsonError
                         | Some (v, r3) \<Rightarrow>
                             (case set_field key v p of
                                Inl e \<Rightarrow> Inl e
                              | Inr p' \<Rightarrow>
                                  (case skip_ws r3 of
                                     [] \<Rightarrow> Inl JsonError
                                   | c2 # r4 \<Rightarrow>
                                       if c2 = CHR '','' then object_members p' (skip_ws r4)
                                       else if c2 = CHR ''}'' then Inr (p', r4)
                                       else Inl JsonError))))))"
  by pat_completeness auto
termination
proof (relation "measure (\<lambda>(p, s). length s)", goal_cases)
  case 1
  show ?case by simp
next
  case (2 p s c cs kr key r1 c1 r2 vr v r3 p' c2 r4)
  have "length (skip_ws r4) \<le> length r4" by (rule skip_ws_length)
  also have "\<dots> < length r3" using 2 by (auto dest: skip_ws_Cons_length)
  also have "\<dots> \<le> length (skip_ws r2)" using 2 by (auto dest: read_value_length)
  also have "\<dots> \<le> length r2" by (rule skip_ws_length)
  also have "\<dots> < length r1" using 2 by (auto dest: skip_ws_Cons_length)
  also have "\<dots> < length cs" using 2 by (auto dest: unquote_body_length)
  finally show ?case using 2 by simp
qed

definition finish :: "Person \<Rightarrow> string \<Rightarrow> error + Person" where
  "finish p r = (if skip_ws r = [] then Inr p else Inl JsonError)"

definition Unmarshal :: "string \<Rightarrow> error + Person" where
  "Unmarshal data =
     (case skip_ws data of
        [] \<Rightarrow> Inl JsonError
      | c # cs \<Rightarrow>
          if c = CHR ''{'' then
            (case skip_ws cs of
               [] \<Rightarrow> Inl JsonError
             | c1 # cs1 \<Rightarrow>
                 if c1 = CHR ''}'' then finish zero_Person cs1
                 else
                   (case object_members zero_Person (c1 # cs1) of
                      Inl e \<Rightarrow> Inl e
                    | Inr (p, r) \<Rightarrow> finish p r))
          else if take 4 (c # cs) = ''null'' then finish zero_Person (drop 4 (c # cs))
          else Inl JsonError)"

section \<open>The ledger platform\<close>

text \<open>
  The platform is outside the repository. It is modelled as the specification describes
  it: a key-value world state, and for each key a change log in commit order, each entry
  carrying the transaction id, the transaction timestamp, the value written (empty for
  a deletion) and the deletion flag. The world state is an association list, so that a
  range scan has an iteration order; no theorem depends on that order. The stub
  functions return an error or a result, as in Go; this in-memory platform itself never
  raises one, so the theorems below are about a platform that does not fault.
\<close>

record pb_timestamp =
  Seconds :: int
  Nanos :: int

record KeyModification =
  km_TxId :: string
  km_Value :: string
  km_Timestamp :: "pb_timestamp option"
  km_IsDelete :: bool

record ledger =
  world :: "(string \<times> string) list"
  history :: "string \<Rightarrow> KeyModification list"

record tx_context =
  TxID :: string
  TxTimestamp :: pb_timestamp

definition empty_ledger :: ledger where
  "empty_ledger = \<lparr>world = [], history = (\<lambda>_. [])\<rparr>"

definition GetState :: "ledger \<Rightarrow> string \<Rightarrow> error + string option" where
  "GetState l key = Inr (map_of (world l) key)"

definition PutState :: "tx_context \<Rightarrow> string \<Rightarrow> string \<Rightarrow> ledger \<Rightarrow> error option \<times> ledger" where
  "PutState ctx key val l =
     (None,
      l\<lparr>world := AList.update key val (world l),
        history := (history l)(key := history l key @
          [\<lparr>km_TxId = TxID ctx, km_Value = val, km_Timestamp = Some (TxTimestamp ctx),
            km_IsDelete = False\<rparr>])\<rparr>)"

definition DelState :: "tx_context \<Rightarrow> string \<Rightarrow> ledger \<Rightarrow> error option \<times> ledger" where
  "DelState ctx key l =
     (None,
      l\<lparr>world := AList.delete key (world l),
        history := (history l)(key := history l key @
          [\<lparr>km_TxId = TxID ctx, km_Value = [], km_Timestamp = Some (TxTimestamp ctx),
            km_IsDelete = True\<rparr>])\<rparr>)"

definition GetStateByRange_all :: "ledger \<Rightarrow> error + (string \<times> string) list" where
  \<comment> \<open>\<^verbatim>\<open>GetStateByRange("", "")\<close>: the open-ended scan of every key\<close>
  "GetStateByRange_all l = Inr (world l)"

definition GetHistoryForKey :: "ledger \<Rightarrow> string \<Rightarrow> error + KeyModification list" where
  "GetHistoryForKey l key = Inr (history l key)"

section \<open>The contract\<close>

type_synonym Time = int  \<comment> \<open>a \<^verbatim>\<open>time.Time\<close>, as nanoseconds since the Unix epoch\<close>

record Update =
  Tx :: string
  Timestamp :: Time
  Data :: Person

definition ptypes_Timestamp :: "pb_timestamp option \<Rightarrow> error + Time" where
  \<comment> \<open>\<^verbatim>\<open>ptypes.Timestamp\<close>: nil, a time before 0001-01-01 or from 10000-01-01 on, and
      nanoseconds outside one second are errors\<close>
  "ptypes_Timestamp ts =
     (case ts of
        None \<Rightarrow> Inl TimestampError
      | Some t \<Rightarrow>
          if Seconds t < - 62135596800 then Inl TimestampError
          else if 253402300800 \<le> Seconds t then Inl TimestampError
          else if Nanos t < 0 \<or> 1000000000 \<le> Nanos t then Inl TimestampError
          else Inr (Seconds t * 1000000000 + Nanos t))"

definition seed_persons :: "Person list" where
  "seed_persons =
     [\<lparr>ID = ''person0'', Serial = ''0510 228148'', Name = ''Igor'', Surname = ''Nikolaev'',
       City = ''Moscow'', Address = ''Likhachevsky proezd 2'', Phone = ''88005553535'',
       Married = True\<rparr>,
      \<lparr>ID = ''person1'', Serial = ''1020 123654'', Name = ''Matvei'', Surname = ''Stepanov'',
       City = ''Dolgoprudny'', Address = ''Universitetskaya 11'', Phone = ''88005553535'',
       Married = False\<rparr>]"

fun InitLedger_loop :: "tx_context \<Rightarrow> Person list \<Rightarrow> ledger \<Rightarrow> error option \<times> ledger" where
  "InitLedger_loop ctx [] l = (None, l)"
| "InitLedger_loop ctx (person # persons) l =
     (case Marshal person of
        Inl err \<Rightarrow> (Some err, l)
      | Inr personJSON \<Rightarrow>
          (case PutState ctx (ID person) personJSON l of
             (Some err, l') \<Rightarrow> (Some (PutFailed err), l')
           | (None, l') \<Rightarrow> InitLedger_loop ctx persons l'))"

definition InitLedger :: "tx_context \<Rightarrow> ledger \<Rightarrow> error option \<times> ledger" where
  "InitLedger ctx l = InitLedger_loop ctx seed_persons l"

definition PersonExists :: "ledger \<Rightarrow> string \<Rightarrow> error + bool" where
  "PersonExists l id' =
     (case GetState l id' of
        Inl err \<Rightarrow> Inl (ReadFailed err)
      | Inr personJSON \<Rightarrow> Inr (personJSON \<noteq> None))"

definition CreatePerson ::
  "tx_context \<Rightarrow> string \<Rightarrow> string \<Rightarrow> string \<Rightarrow> string \<Rightarrow> string \<Rightarrow> string \<Rightarrow> string \<Rightarrow> bool
     \<Rightarrow> ledger \<Rightarrow> error option \<times> ledger" where
  "CreatePerson ctx id' serial name surname city address phone married l =
     (case PersonExists l id' of
        Inl err \<Rightarrow> (Some err, l)
      | Inr exists \<Rightarrow>
          if exists then (Some (AlreadyExists id'), l)
          else
            (case Marshal \<lparr>ID = id', Serial = serial, Name = name, Surname = surname,
                            City = city, Address = address, Phone = phone,
                            Married = married\<rparr> of
               Inl err \<Rightarrow> (Some err, l)
             | Inr personJSON \<Rightarrow> PutState ctx id' personJSON l))"

definition ReadPerson :: "ledger \<Rightarrow> string \<Rightarrow> error + Person" where
  "ReadPerson l id' =
     (case GetState l id' of
        Inl err \<Rightarrow> Inl (ReadFailed err)
      | Inr None \<Rightarrow> Inl (DoesNotExist id')
      | Inr (Some personJSON) \<Rightarrow> Unmarshal personJSON)"

definition UpdatePerson ::
  "tx_context \<Rightarrow> string \<Rightarrow> string \<Rightarrow> string \<Rightarrow> string \<Rightarrow> string \<Rightarrow> string \<Rightarrow> string \<Rightarrow> bool
     \<Rightarrow> ledger \<Rightarrow> error option \<times> ledger" where
  "UpdatePerson ctx id' serial name surname city address phone married l =
     (case PersonExists l id' of
        Inl err \<Rightarrow> (Some err, l)
      | Inr exists \<Rightarrow>
          if \<not> exists then (Some (DoesNotExist id'), l)
          else
            (case Marshal \<lparr>ID = id', Serial = serial, Name = name, Surname = surname,
                            City = city, Address = address, Phone = phone,
                            Married = married\<rparr> of
               Inl err \<Rightarrow> (Some err, l)
             | Inr personJSON \<Rightarrow> PutState ctx id' personJSON l))"

definition DeletePerson :: "tx_context \<Rightarrow> string \<Rightarrow> ledger \<Rightarrow> error option \<times> ledger" where
  "DeletePerson ctx id' l =
     (case PersonExists l id' of
        Inl err \<Rightarrow> (Some err, l)
      | Inr exists \<Rightarrow>
          if \<not> exists then (Some (DoesNotExist id'), l)
          else DelState ctx id' l)"

fun GetAllPersons_loop :: "(string \<times> string) list \<Rightarrow> Person list \<Rightarrow> error + Person list" where
  "GetAllPersons_loop [] persons = Inr persons"
| "GetAllPersons_loop (queryResponse # results) persons =
     (case Unmarshal (snd queryResponse) of
        Inl err \<Rightarrow> Inl err
      | Inr person \<Rightarrow> GetAllPersons_loop results (persons @ [person]))"

definition GetAllPersons :: "ledger \<Rightarrow> error + Person list" where
  "GetAllPersons l =
     (case GetStateByRange_all l of
        Inl err \<Rightarrow> Inl err
      | Inr resultsIterator \<Rightarrow> GetAllPersons_loop resultsIterator [])"

fun GetPersonHistory_loop :: "KeyModification list \<Rightarrow> Update list \<Rightarrow> error + Update list" where
  "GetPersonHistory_loop [] updatesHistory = Inr updatesHistory"
| "GetPersonHistory_loop (response # results) updatesHistory =
     (case Unmarshal (km_Value response) of
        Inl err \<Rightarrow> Inl err
      | Inr person \<Rightarrow>
          (case ptypes_Timestamp (km_Timestamp response) of
             Inl err \<Rightarrow> Inl err
           | Inr timestamp \<Rightarrow>
               GetPersonHistory_loop results
                 (updatesHistory @
                    [\<lparr>Tx = km_TxId response, Timestamp = timestamp, Data = person\<rparr>])))"

definition GetPersonHistory :: "ledger \<Rightarrow> string \<Rightarrow> error + Update list" where
  "GetPersonHistory l id' =
     (case PersonExists l id' of
        Inl err \<Rightarrow> Inl err
      | Inr exists \<Rightarrow>
          if \<not> exists then Inl (DoesNotExist id')
          else
            (case GetHistoryForKey l id' of
               Inl err \<Rightarrow> Inl err
             | Inr resultsIterator \<Rightarrow> GetPersonHistory_loop resultsIterator []))"

section \<open>What encoding and decoding make of a Person\<close>

text \<open>
  \<open>coerce_utf8\<close> is the string that \<^verbatim>\<open>json.Unmarshal\<close> reads back from what
  \<^verbatim>\<open>json.Marshal\<close> wrote for a string: every byte that does not start a well-formed
  UTF-8 sequence has become the three bytes of U+FFFD, and the rest is unchanged.
  \<open>ValidString\<close> (Go's \<^verbatim>\<open>utf8.ValidString\<close>) holds of the strings it leaves alone.
\<close>

function coerce_utf8 :: "string \<Rightarrow> string" where
  "coerce_utf8 [] = []"
| "coerce_utf8 (c # cs) =
     (if byte c < 0x80 then c # coerce_utf8 cs
      else (case DecodeRune (c # cs) of (r, n) \<Rightarrow>
              if r = RuneError \<and> n = 1
              then EncodeRune RuneError @ coerce_utf8 (drop n (c # cs))
              else take n (c # cs) @ coerce_utf8 (drop n (c # cs))))"
  by pat_completeness auto
termination
  by (relation "measure length") (auto intro: DecodeRune_drop_less)

definition coerce_Person :: "Person \<Rightarrow> Person" where
  "coerce_Person p =
     \<lparr>ID = coerce_utf8 (ID p), Serial = coerce_utf8 (Serial p), Name = coerce_utf8 (Name p),
       Surname = coerce_utf8 (Surname p), City = coerce_utf8 (City p),
       Address = coerce_utf8 (Address p), Phone = coerce_utf8 (Phone p),
       Married = Married p\<rparr>"

definition plain_key :: "string \<Rightarrow> bool" where
  "plain_key k = list_all (\<lambda>c. htmlSafeSet (byte c)) k"

definition example_ctx :: tx_context where
  "example_ctx = \<lparr>TxID = ''tx1'', TxTimestamp = \<lparr>Seconds = 1700000000, Nanos = 0\<rparr>\<rparr>"

definition example_ledger :: ledger where
  "example_ledger = \<lparr>world = [(''p1'', ''x'')], history = (\<lambda>_. [])\<rparr>"

section \<open>Decoding an encoded Person\<close>

declare object_members.simps [simp del]

lemma mod_in_block:
  fixes b :: nat
  assumes "m * q \<le> b" "b < m * q + m"
  shows "b mod m = b - m * q"
proof -
  define x where "x = b - m * q"
  have b: "b = x + m * q" and x: "x < m" using assms by (simp_all add: x_def)
  have "b mod m = (x + m * q) mod m" using b by simp
  also have "\<dots> = x" using x by simp
  finally show ?thesis by (simp add: x_def)
qed

lemma lead2: "0xC0 \<le> b0 \<Longrightarrow> b0 < 0xE0 \<Longrightarrow> b0 mod 32 = b0 - (0xC0::nat)"
  using mod_in_block [of 32 6 b0] by simp

lemma lead3: "0xE0 \<le> b0 \<Longrightarrow> b0 < 0xF0 \<Longrightarrow> b0 mod 16 = b0 - (0xE0::nat)"
  using mod_in_block [of 16 14 b0] by simp

lemma lead4: "0xF0 \<le> b0 \<Longrightarrow> b0 < 0xF8 \<Longrightarrow> b0 mod 8 = b0 - (0xF0::nat)"
  using mod_in_block [of 8 30 b0] by simp

lemma cont: "0x80 \<le> b \<Longrightarrow> b \<le> 0xBF \<Longrightarrow> b mod 64 = b - (0x80::nat)"
  using mod_in_block [of 64 2 b] by simp

lemma enc2:
  assumes "0xC2 \<le> b0" "b0 < 0xE0" "0x80 \<le> b1" "b1 \<le> 0xBF"
  shows "EncodeRune (b0 mod 32 * 64 + b1 mod 64) = [chr b0, chr b1]"
proof -
  define x where "x = b0 - 0xC0"
  define y where "y = b1 - 0x80"
  have x: "b0 mod 32 = x" "2 \<le> x" "x < 32" "0xC0 + x = b0"
    using assms lead2 [of b0] by (simp_all add: x_def)
  have y: "b1 mod 64 = y" "y < 64" "0x80 + y = b1"
    using assms cont [of b1] by (simp_all add: y_def)
  have r: "(x * 64 + y) div 64 = x" "(x * 64 + y) mod 64 = y"
    using y by simp_all
  have c: "0x7F < x * 64 + y" "x * 64 + y \<le> 0x7FF"
    using x y by simp_all
  show ?thesis
    unfolding x(1) y(1) EncodeRune_def using r c x(4) y(3) by simp
qed


lemma divmod_block:
  fixes x :: nat
  assumes "t < m"
  shows "(x * m + t) div m = x" "(x * m + t) mod m = t"
  using assms by simp_all

lemma enc3:
  assumes "0xE0 \<le> b0" "b0 < 0xF0" "accept_lo b0 \<le> b1" "b1 \<le> accept_hi b0"
    "0x80 \<le> b2" "b2 \<le> 0xBF"
  shows "EncodeRune (b0 mod 16 * 4096 + b1 mod 64 * 64 + b2 mod 64) = [chr b0, chr b1, chr b2]"
proof -
  define x where "x = b0 - 0xE0"
  define y where "y = b1 - 0x80"
  define z where "z = b2 - 0x80"
  have b1: "0x80 \<le> b1" "b1 \<le> 0xBF"
    using assms(3,4) by (auto simp: accept_lo_def accept_hi_def split: if_splits)
  have x: "b0 mod 16 = x" "x < 16" "0xE0 + x = b0"
    using assms lead3 [of b0] by (simp_all add: x_def)
  have y: "b1 mod 64 = y" "y < 64" "0x80 + y = b1"
    using b1 cont [of b1] by (simp_all add: y_def)
  have z: "b2 mod 64 = z" "z < 64" "0x80 + z = b2"
    using assms cont [of b2] by (simp_all add: z_def)
  have lo: "x = 0 \<Longrightarrow> 32 \<le> y"
    using assms(3) x(3) y(3) by (auto simp: accept_lo_def split: if_splits)
  have hi: "x = 13 \<Longrightarrow> y < 32"
    using assms(4) x(3) y(3) by (auto simp: accept_hi_def split: if_splits)
  define r where "r = x * 4096 + y * 64 + z"
  have r1: "r div 4096 = x"
    using divmod_block(1) [of "y * 64 + z" 4096 x] y z by (simp add: r_def add.assoc)
  have r2: "r div 64 = x * 64 + y" "r mod 64 = z"
    using divmod_block [of z 64 "x * 64 + y"] z by (simp_all add: r_def algebra_simps)
  have r3: "r div 64 mod 64 = y"
    using divmod_block(2) [of y 64 x] y by (simp add: r2)
  have c: "0x7FF < r" "r \<le> 0xFFFF" "\<not> (0xD800 \<le> r \<and> r \<le> 0xDFFF)"
    using x y z lo hi unfolding r_def by (cases "x = 0"; cases "x = 13"; simp; arith)+
  show ?thesis
    unfolding x(1) y(1) z(1) r_def [symmetric] EncodeRune_def
    using r1 r2 r3 c x(3) y(3) z(3) by auto
qed


lemma enc4:
  assumes "0xF0 \<le> b0" "b0 \<le> 0xF4" "accept_lo b0 \<le> b1" "b1 \<le> accept_hi b0"
    "0x80 \<le> b2" "b2 \<le> 0xBF" "0x80 \<le> b3" "b3 \<le> 0xBF"
  shows "EncodeRune (b0 mod 8 * 262144 + b1 mod 64 * 4096 + b2 mod 64 * 64 + b3 mod 64)
           = [chr b0, chr b1, chr b2, chr b3]"
proof -
  define x where "x = b0 - 0xF0"
  define y where "y = b1 - 0x80"
  define z where "z = b2 - 0x80"
  define w where "w = b3 - 0x80"
  have b1: "0x80 \<le> b1" "b1 \<le> 0xBF"
    using assms(3,4) by (auto simp: accept_lo_def accept_hi_def split: if_splits)
  have x: "b0 mod 8 = x" "x \<le> 4" "0xF0 + x = b0"
    using assms lead4 [of b0] by (simp_all add: x_def)
  have y: "b1 mod 64 = y" "y < 64" "0x80 + y = b1"
    using b1 cont [of b1] by (simp_all add: y_def)
  have z: "b2 mod 64 = z" "z < 64" "0x80 + z = b2"
    using assms cont [of b2] by (simp_all add: z_def)
  have w: "b3 mod 64 = w" "w < 64" "0x80 + w = b3"
    using assms cont [of b3] by (simp_all add: w_def)
  have lo: "x = 0 \<Longrightarrow> 16 \<le> y"
    using assms(3) x(3) y(3) by (auto simp: accept_lo_def split: if_splits)
  have hi: "x = 4 \<Longrightarrow> y < 16"
    using assms(4) x(3) y(3) by (auto simp: accept_hi_def split: if_splits)
  define r where "r = x * 262144 + y * 4096 + z * 64 + w"
  have r1: "r div 262144 = x"
    using divmod_block(1) [of "y * 4096 + z * 64 + w" 262144 x] y z w
    by (simp add: r_def add.assoc)
  have r2: "r div 4096 = x * 64 + y"
    using divmod_block(1) [of "z * 64 + w" 4096 "x * 64 + y"] z w
    by (simp add: r_def algebra_simps)
  have r3: "r div 64 = (x * 64 + y) * 64 + z" "r mod 64 = w"
    using divmod_block [of w 64 "(x * 64 + y) * 64 + z"] w
    by (simp_all add: r_def algebra_simps)
  have r4: "r div 4096 mod 64 = y" "r div 64 mod 64 = z"
    using divmod_block(2) [of y 64 x] divmod_block(2) [of z 64 "x * 64 + y"] y z
    by (simp_all add: r2 r3)
  have c: "0xFFFF < r" "r \<le> 0x10FFFF"
    using x y z w lo hi unfolding r_def by (cases "x = 0"; cases "x = 4"; simp; arith)+
  show ?thesis
    unfolding x(1) y(1) z(1) w(1) r_def [symmetric] EncodeRune_def
    using r1 r4 r3(2) c x(3) y(3) z(3) w(3) by auto
qed

lemma chr_byte [simp]: "chr (byte c) = c"
  by (simp add: chr_def byte_def)

lemma byte_less_256: "byte c < 256"
  by (simp add: byte_def)

lemma DecodeRune_valid:
  assumes d: "DecodeRune (c # cs) = (r, n)" and hi: "\<not> byte c < 0x80" and n1: "n \<noteq> 1"
  shows "n \<le> length (c # cs) \<and> EncodeRune r = take n (c # cs)
         \<and> DecodeRune (take n (c # cs) @ ys) = (r, n)"
proof -
  from d hi n1 have lead: "0xC2 \<le> byte c" "byte c \<le> 0xF4"
    and len: "first_size (byte c) \<le> length (c # cs)"
    by (auto simp: DecodeRune_def split: if_splits)
  from len obtain c1 cs1 where cs: "cs = c1 # cs1"
    by (cases cs) (auto simp: first_size_def split: if_splits)
  from d hi n1 lead cs have b1: "accept_lo (byte c) \<le> byte c1" "byte c1 \<le> accept_hi (byte c)"
    by (auto simp: DecodeRune_def split: if_splits)
  consider (two) "byte c < 0xE0" | (three) "0xE0 \<le> byte c" "byte c < 0xF0"
    | (four) "0xF0 \<le> byte c"
    by linarith
  then show ?thesis
  proof cases
    case two
    with d hi lead cs b1 have r: "r = byte c mod 32 * 64 + byte c1 mod 64" and n: "n = 2"
      by (auto simp: DecodeRune_def first_size_def split: if_splits)
    from two b1 have b1': "0x80 \<le> byte c1" "byte c1 \<le> 0xBF"
      by (auto simp: accept_lo_def accept_hi_def split: if_splits)
    have "EncodeRune r = [c, c1]"
      using enc2 [of "byte c" "byte c1"] lead two b1' by (simp add: r)
    moreover have "DecodeRune ([c, c1] @ ys) = (r, n)"
      using hi lead two b1 by (simp add: DecodeRune_def first_size_def r n)
    ultimately show ?thesis by (simp add: cs n)
  next
    case three
    with len cs obtain c2 cs2 where cs1: "cs1 = c2 # cs2"
      by (cases cs1) (auto simp: first_size_def split: if_splits)
    from d hi n1 lead cs cs1 b1 three have b2: "0x80 \<le> byte c2" "byte c2 \<le> 0xBF"
      by (auto simp: DecodeRune_def first_size_def split: if_splits)
    with d hi lead cs cs1 b1 three
    have r: "r = byte c mod 16 * 4096 + byte c1 mod 64 * 64 + byte c2 mod 64" and n: "n = 3"
      by (auto simp: DecodeRune_def first_size_def split: if_splits)
    have "EncodeRune r = [c, c1, c2]"
      using enc3 [of "byte c" "byte c1" "byte c2"] three b1 b2 by (simp add: r)
    moreover have "DecodeRune ([c, c1, c2] @ ys) = (r, n)"
      using hi lead three b1 b2 by (simp add: DecodeRune_def first_size_def r n)
    ultimately show ?thesis by (simp add: cs cs1 n)
  next
    case four
    with len cs obtain c2 c3 cs3 where cs1: "cs1 = c2 # c3 # cs3"
      by (cases cs1; cases "tl cs1") (auto simp: first_size_def split: if_splits)
    from d hi n1 lead cs cs1 b1 four have b2: "0x80 \<le> byte c2" "byte c2 \<le> 0xBF"
      by (auto simp: DecodeRune_def first_size_def split: if_splits)
    with d hi n1 lead cs cs1 b1 four have b3: "0x80 \<le> byte c3" "byte c3 \<le> 0xBF"
      by (auto simp: DecodeRune_def first_size_def split: if_splits)
    with d hi lead cs cs1 b1 b2 four
    have r: "r = byte c mod 8 * 262144 + byte c1 mod 64 * 4096 + byte c2 mod 64 * 64
                   + byte c3 mod 64" and n: "n = 4"
      by (auto simp: DecodeRune_def first_size_def split: if_splits)
    have "EncodeRune r = [c, c1, c2, c3]"
      using enc4 [of "byte c" "byte c1" "byte c2" "byte c3"] four lead b1 b2 b3 by (simp add: r)
    moreover have "DecodeRune ([c, c1, c2, c3] @ ys) = (r, n)"
      using hi lead four b1 b2 b3 by (simp add: DecodeRune_def first_size_def r n)
    ultimately show ?thesis by (simp add: cs cs1 n)
  qed
qed

lemma byte_eq_iff: "byte c = byte d \<longleftrightarrow> c = d"
  by (simp add: byte_def)

lemma byte_DQ: "byte c = 0x22 \<longleftrightarrow> c = DQ"
  using byte_eq_iff [of c DQ] by (simp add: byte_def)

lemma byte_BS: "byte c = 0x5C \<longleftrightarrow> c = BS"
  using byte_eq_iff [of c BS] by (simp add: byte_def)

lemma byte_chr: "n < 256 \<Longrightarrow> byte (chr n) = n"
  by (simp add: byte_def chr_def)

lemma hexval_hex: "d < 16 \<Longrightarrow> hexval (hex d) = Some d"
  by (auto simp: hexval_def hex_def byte_chr)

lemma getu4_escape:
  "d1 < 16 \<Longrightarrow> d2 < 16 \<Longrightarrow> d3 < 16 \<Longrightarrow> d4 < 16 \<Longrightarrow>
   getu4 (BS # CHR ''u'' # hex d1 # hex d2 # hex d3 # hex d4 # rest)
     = Some (d1 * 4096 + d2 * 256 + d3 * 16 + d4)"
  by (simp add: hexval_hex)

lemma hex_digits: "hex 0 = CHR ''0''" "hex 2 = CHR ''2''" "hex 15 = CHR ''f''" "hex 13 = CHR ''d''"
  by (simp_all add: hex_def chr_def char_of_eq_iff)

lemma unquote_escaped:
  assumes "byte c < 0x80" "\<not> htmlSafeSet (byte c)"
  shows "unquote_body (escape_byte c @ rest) = prepend [c] (unquote_body rest)"
proof -
  consider (q) "c = BS \<or> c = DQ" | (n) "c = CHR 0x0A" | (r) "c = CHR 0x0D" | (t) "c = CHR 0x09"
    | (u) "\<not> (c = BS \<or> c = DQ \<or> c = CHR 0x0A \<or> c = CHR 0x0D \<or> c = CHR 0x09)"
    by blast
  then show ?thesis
  proof cases
    case u
    have g: "getu4 (BS # CHR ''u'' # hex 0 # hex 0 # hex (byte c div 16) # hex (byte c mod 16) # rest)
          = Some (byte c)"
      using assms(1) by (subst getu4_escape) simp_all
    have e: "EncodeRune (byte c) = [c]"
      using assms(1) by (simp add: EncodeRune_def)
    show ?thesis
      using u assms(1) g e
      by (simp add: escape_byte_def hex_digits [symmetric] unicode_escape_def)
  qed (auto simp: escape_byte_def simple_escape_def)
qed

lemma DecodeRune_one:
  assumes "DecodeRune (c # cs) = (r, 1)" "\<not> byte c < 0x80"
  shows "r = RuneError"
  using assms by (auto simp: DecodeRune_def split: if_splits)

lemma high_byte_plain:
  assumes "\<not> byte c < 0x80"
  shows "c \<noteq> DQ" "c \<noteq> BS" "\<not> byte c < 0x20"
  using assms byte_DQ [of c] byte_BS [of c] by auto

lemma unquote_multibyte:
  assumes d: "DecodeRune (c # cs) = (r, n)" and hi: "\<not> byte c < 0x80" and n1: "n \<noteq> 1"
  shows "unquote_body (take n (c # cs) @ ys) = prepend (take n (c # cs)) (unquote_body ys)"
proof -
  from DecodeRune_valid [OF d hi n1, of ys]
  have len: "n \<le> length (c # cs)" and enc: "EncodeRune r = take n (c # cs)"
    and dec: "DecodeRune (take n (c # cs) @ ys) = (r, n)" by simp_all
  from DecodeRune_size_pos [of c cs] d have "0 < n" by simp
  then obtain m where n: "n = Suc m" by (cases n) auto
  have t: "take n (c # cs) @ ys = c # (take m cs @ ys)" by (simp add: n)
  have dr: "drop n (c # (take m cs @ ys)) = ys"
    using len by (simp add: n)
  have "unquote_body (c # (take m cs @ ys))
          = prepend (EncodeRune r) (unquote_body (drop n (c # (take m cs @ ys))))"
    using high_byte_plain [OF hi] hi dec [unfolded t]
    by (subst unquote_body.simps) simp
  then show ?thesis
    by (simp only: t [symmetric] enc) (simp add: t dr)
qed

lemma unquote_replacement:
  "unquote_body (BS # CHR ''u'' # CHR ''f'' # CHR ''f'' # CHR ''f'' # CHR ''d'' # ys)
     = prepend (EncodeRune RuneError) (unquote_body ys)"
proof -
  have "getu4 (BS # CHR ''u'' # hex 15 # hex 15 # hex 15 # hex 13 # ys) = Some RuneError"
    by (subst getu4_escape) simp_all
  then show ?thesis
    by (simp add: hex_digits unicode_escape_def)
qed

lemma unquote_separator:
  assumes "r = 0x2028 \<or> r = 0x2029"
  shows "unquote_body (BS # CHR ''u'' # CHR ''2'' # CHR ''0'' # CHR ''2'' # hex (r mod 16) # ys)
     = prepend (EncodeRune r) (unquote_body ys)"
proof -
  have "getu4 (BS # CHR ''u'' # hex 2 # hex 0 # hex 2 # hex (r mod 16) # ys) = Some r"
    using assms by (subst getu4_escape) auto
  then show ?thesis
    using assms by (auto simp: hex_digits unicode_escape_def)
qed

lemma prepend_Some_eq [simp]: "prepend xs (Some (s, rest)) = Some (xs @ s, rest)"
  by (simp add: prepend_def)

lemma unquote_encode:
  "unquote_body (encode_string_body s @ DQ # rest) = Some (coerce_utf8 s, rest)"
proof (induction s rule: encode_string_body.induct)
  case 1
  show ?case by simp
next
  case (2 c cs)
  show ?case
  proof (cases "byte c < 0x80")
    case True
    note IH = "2.IH"(1) [OF True]
    have k: "coerce_utf8 (c # cs) = [c] @ coerce_utf8 cs"
      using True by simp
    show ?thesis
    proof (cases "htmlSafeSet (byte c)")
      case safe: True
      then have "c \<noteq> DQ" "c \<noteq> BS" "\<not> byte c < 0x20"
        using byte_DQ [of c] byte_BS [of c] by (auto simp: htmlSafeSet_def)
      then show ?thesis
        using True safe IH by simp
    next
      case False
      have e: "encode_string_body (c # cs) = escape_byte c @ encode_string_body cs"
        using True False by simp
      show ?thesis
        by (simp only: e k append_assoc unquote_escaped [OF True False] IH prepend_Some_eq)
    qed
  next
    case hi: False
    obtain r n where d: "DecodeRune (c # cs) = (r, n)"
      by (cases "DecodeRune (c # cs)")
    note IH = "2.IH"(2-4) [OF hi d [symmetric]]
    show ?thesis
    proof (cases "r = RuneError \<and> n = 1")
      case True
      have e: "encode_string_body (c # cs)
                 = [BS, CHR ''u'', CHR ''f'', CHR ''f'', CHR ''f'', CHR ''d'']
                     @ encode_string_body (drop n (c # cs))"
        using hi d True by (simp del: drop_Suc_Cons)
      have k: "coerce_utf8 (c # cs) = EncodeRune RuneError @ coerce_utf8 (drop n (c # cs))"
        using hi d True by (simp del: drop_Suc_Cons)
      show ?thesis
        by (simp only: e k append_assoc append_Cons append_Nil unquote_replacement
            IH(1) [OF True] prepend_Some_eq)
    next
      case ne: False
      have n1: "n \<noteq> 1"
        using ne DecodeRune_one [of c cs r] d hi by auto
      from DecodeRune_valid [OF d hi n1] have enc: "EncodeRune r = take n (c # cs)" by simp
      have k: "coerce_utf8 (c # cs) = take n (c # cs) @ coerce_utf8 (drop n (c # cs))"
        using hi d ne by (auto simp del: drop_Suc_Cons take_Suc_Cons)
      show ?thesis
      proof (cases "r = 0x2028 \<or> r = 0x2029")
        case True
        have e: "encode_string_body (c # cs)
                 = [BS, CHR ''u'', CHR ''2'', CHR ''0'', CHR ''2'', hex (r mod 16)]
                     @ encode_string_body (drop n (c # cs))"
          using hi d ne True by (auto simp del: drop_Suc_Cons)
        show ?thesis
          by (simp only: e k append_assoc append_Cons append_Nil unquote_separator [OF True]
              IH(2) [OF ne True] prepend_Some_eq enc)
      next
        case False
        have e: "encode_string_body (c # cs)
                   = take n (c # cs) @ encode_string_body (drop n (c # cs))"
          using hi d ne False by (auto simp del: drop_Suc_Cons take_Suc_Cons)
        show ?thesis
          by (simp only: e k append_assoc unquote_multibyte [OF d hi n1]
              IH(3) [OF ne False] prepend_Some_eq)
      qed
    qed
  qed
qed

lemma coerce_valid: "ValidString s \<Longrightarrow> coerce_utf8 s = s"
proof (induction s rule: coerce_utf8.induct)
  case 1
  show ?case by simp
next
  case (2 c cs)
  show ?case
  proof (cases "byte c < 0x80")
    case True
    with 2 show ?thesis by simp
  next
    case False
    obtain r n where d: "DecodeRune (c # cs) = (r, n)"
      by (cases "DecodeRune (c # cs)")
    from "2.prems" False d have n1: "n \<noteq> 1" and v: "ValidString (drop n (c # cs))"
      by (auto split: if_splits)
    have "coerce_utf8 (drop n (c # cs)) = drop n (c # cs)"
      using "2.IH"(3) [OF False d [symmetric] _ v] n1 by simp
    then show ?thesis
      using False d n1 by (simp del: take_Suc_Cons drop_Suc_Cons)
  qed
qed

lemma unquote_plain: "plain_key k \<Longrightarrow> unquote_body (k @ DQ # r) = Some (k, r)"
proof (induction k)
  case Nil
  show ?case by simp
next
  case (Cons c k)
  then have "htmlSafeSet (byte c)" and pk: "plain_key k" by (simp_all add: plain_key_def)
  then have "c \<noteq> DQ" "c \<noteq> BS" "\<not> byte c < 0x20" "byte c < 0x80"
    using byte_DQ [of c] byte_BS [of c] by (auto simp: htmlSafeSet_def)
  then show ?case using Cons.IH [OF pk] by simp
qed

lemma skip_ws_DQ [simp]: "skip_ws (DQ # s) = DQ # s"
  by (simp add: skip_ws_def is_space_def)

lemma skip_ws_punct [simp]:
  "skip_ws (CHR '':'' # s) = CHR '':'' # s" "skip_ws (CHR '','' # s) = CHR '','' # s"
  "skip_ws (CHR ''}'' # s) = CHR ''}'' # s" "skip_ws (CHR ''{'' # s) = CHR ''{'' # s"
  "skip_ws (CHR ''t'' # s) = CHR ''t'' # s" "skip_ws (CHR ''f'' # s) = CHR ''f'' # s"
  "skip_ws [] = []"
  by (simp_all add: skip_ws_def is_space_def)

lemma skip_ws_encode_string [simp]: "skip_ws (encode_string s @ r) = encode_string s @ r"
  by (simp add: encode_string_def)

lemma read_value_string:
  "read_value (encode_string s @ rest) = Some (JString (coerce_utf8 s), rest)"
  by (simp add: read_value_def encode_string_def unquote_encode)

lemma read_value_bool:
  "read_value (encode_value (BoolValue b) @ CHR ''}'' # rest) = Some (JBool b, CHR ''}'' # rest)"
  by (simp add: read_value_def)

lemma member_string:
  assumes "plain_key name" "plain_key name'"
  shows "object_members p (tl (encode_fields next ((name, StringValue s) # (name', v) # fs)))
    = (case set_field name (JString (coerce_utf8 s)) p of
         Inl e \<Rightarrow> Inl e
       | Inr p' \<Rightarrow> object_members p' (tl (encode_fields (CHR '','') ((name', v) # fs))))"
  by (subst object_members.simps)
     (simp add: unquote_plain [OF assms(1)] read_value_string split: sum.splits)

lemma member_bool_last:
  assumes "plain_key name"
  shows "object_members p (tl (encode_fields next [(name, BoolValue b)]))
    = (case set_field name (JBool b) p of
         Inl e \<Rightarrow> Inl e
       | Inr p' \<Rightarrow> Inr (p', []))"
  by (subst object_members.simps)
     (simp add: unquote_plain [OF assms(1)] read_value_def split: sum.splits)

lemma plain_keys:
  "plain_key ''id''" "plain_key ''passport''" "plain_key ''name''" "plain_key ''surname''"
  "plain_key ''city''" "plain_key ''address''" "plain_key ''phone''" "plain_key ''married''"
  by (simp_all add: plain_key_def htmlSafeSet_def byte_def)

lemma set_field_keys:
  "set_field ''id'' (JString s) p = Inr (p\<lparr>ID := s\<rparr>)"
  "set_field ''passport'' (JString s) p = Inr (p\<lparr>Serial := s\<rparr>)"
  "set_field ''name'' (JString s) p = Inr (p\<lparr>Name := s\<rparr>)"
  "set_field ''surname'' (JString s) p = Inr (p\<lparr>Surname := s\<rparr>)"
  "set_field ''city'' (JString s) p = Inr (p\<lparr>City := s\<rparr>)"
  "set_field ''address'' (JString s) p = Inr (p\<lparr>Address := s\<rparr>)"
  "set_field ''phone'' (JString s) p = Inr (p\<lparr>Phone := s\<rparr>)"
  "set_field ''married'' (JBool b) p = Inr (p\<lparr>Married := b\<rparr>)"
  by (simp_all add: set_field_def set_string_def to_lower_def byte_def)

lemma object_members_Person:
  "object_members zero_Person (tl (encode_fields (CHR ''{'') (Person_fields p)))
     = Inr (coerce_Person p, [])"
  unfolding Person_fields_def
  by (simp only: member_string plain_keys member_bool_last set_field_keys sum.case)
     (simp add: coerce_Person_def)

lemma Unmarshal_encode:
  "Unmarshal (encode_fields (CHR ''{'') (Person_fields p)) = Inr (coerce_Person p)"
proof -
  define t where "t = tl (tl (encode_fields (CHR ''{'') (Person_fields p)))"
  have e: "encode_fields (CHR ''{'') (Person_fields p) = CHR ''{'' # DQ # t"
    by (simp add: Person_fields_def t_def)
  have "object_members zero_Person (DQ # t) = Inr (coerce_Person p, [])"
    using object_members_Person [of p] by (simp only: e list.sel)
  then show ?thesis
    by (simp add: e Unmarshal_def finish_def)
qed

section \<open>Failed preconditions and the frame of the mutating operations\<close>

lemma map_of_update_other: "k \<noteq> key \<Longrightarrow> map_of (AList.update key v al) k = map_of al k"
  by (simp add: update_conv')

lemma map_of_delete_other: "k \<noteq> key \<Longrightarrow> map_of (AList.delete key al) k = map_of al k"
  by (simp add: delete_conv')

text \<open>
  C2. On a ledger whose world state holds a value under \<open>id'\<close>, \<open>CreatePerson\<close> returns
  the error "the person already exists" and the ledger it leaves is the ledger it
  was given: no key of the world state and no change log is modified.
\<close>

theorem CreatePerson_existing:
  "map_of (world l) id' = Some v \<Longrightarrow>
   CreatePerson ctx id' serial name surname city address phone married l
     = (Some (AlreadyExists id'), l)"
  by (simp add: CreatePerson_def PersonExists_def GetState_def)

theorem CreatePerson_existing_witness:
  "map_of (world example_ledger) ''p1'' = Some ''x'' \<and>
   CreatePerson example_ctx ''p1'' ''s'' ''n'' ''sn'' ''c'' ''a'' ''ph'' True example_ledger
     = (Some (AlreadyExists ''p1''), example_ledger)"
  using CreatePerson_existing [where l = example_ledger and id' = "''p1''" and v = "''x''"]
  by (simp add: example_ledger_def)

text \<open>
  C3. On a ledger whose world state holds nothing under \<open>id'\<close>, \<open>UpdatePerson\<close>,
  \<open>DeletePerson\<close> and \<open>GetPersonHistory\<close> each return the error "the person does not
  exist"; the two mutating operations leave the ledger as it was, and the history query
  has no ledger to change.
\<close>

theorem absent_id_not_found:
  "map_of (world l) id' = None \<Longrightarrow>
   UpdatePerson ctx id' serial name surname city address phone married l
     = (Some (DoesNotExist id'), l)
   \<and> DeletePerson ctx id' l = (Some (DoesNotExist id'), l)
   \<and> GetPersonHistory l id' = Inl (DoesNotExist id')"
  by (simp add: UpdatePerson_def DeletePerson_def GetPersonHistory_def PersonExists_def
      GetState_def)

theorem absent_id_not_found_witness:
  "map_of (world example_ledger) ''p2'' = None \<and>
   UpdatePerson example_ctx ''p2'' ''s'' ''n'' ''sn'' ''c'' ''a'' ''ph'' True example_ledger
     = (Some (DoesNotExist ''p2''), example_ledger)
   \<and> DeletePerson example_ctx ''p2'' example_ledger = (Some (DoesNotExist ''p2''), example_ledger)
   \<and> GetPersonHistory example_ledger ''p2'' = Inl (DoesNotExist ''p2'')"
  using absent_id_not_found [where l = example_ledger and id' = "''p2''"]
  by (simp add: example_ledger_def)

text \<open>
  C9. \<open>CreatePerson\<close>, \<open>UpdatePerson\<close> and \<open>DeletePerson\<close> on \<open>id'\<close> leave the value
  stored under every other key \<open>k\<close> as it was, whether they succeed or fail.
\<close>

theorem other_keys_untouched:
  "k \<noteq> id' \<Longrightarrow>
   map_of (world (snd (CreatePerson ctx id' serial name surname city address phone married l))) k
     = map_of (world l) k
   \<and> map_of (world (snd (UpdatePerson ctx id' serial name surname city address phone married l))) k
     = map_of (world l) k
   \<and> map_of (world (snd (DeletePerson ctx id' l))) k = map_of (world l) k"
  by (simp add: CreatePerson_def UpdatePerson_def DeletePerson_def PersonExists_def
      GetState_def Marshal_def PutState_def DelState_def map_of_update_other
      map_of_delete_other)

theorem other_keys_untouched_witness:
  "''p1'' \<noteq> ''p2'' \<and>
   map_of (world (snd (CreatePerson example_ctx ''p2'' ''s'' ''n'' ''sn'' ''c'' ''a'' ''ph'' True
      example_ledger))) ''p1'' = map_of (world example_ledger) ''p1''
   \<and> map_of (world (snd (UpdatePerson example_ctx ''p1'' ''s'' ''n'' ''sn'' ''c'' ''a'' ''ph'' True
      example_ledger))) ''p2'' = map_of (world example_ledger) ''p2''
   \<and> map_of (world (snd (DeletePerson example_ctx ''p1'' example_ledger))) ''p2''
       = map_of (world example_ledger) ''p2''"
  using other_keys_untouched [where k = "''p1''" and id' = "''p2''"]
    other_keys_untouched [where k = "''p2''" and id' = "''p1''"]
  by simp

end
